theory Spec2Isabelle
  imports Complex_Main "HOL-Library.Multiset" "HOL-Library.Char_ord" "HOL-Library.List_Lexorder"
begin

section \<open>Data model\<close>

text \<open>
  The program (\<^verbatim>\<open>src/src/process_van.py\<close>) moves pandas DataFrames through a fixed
  pipeline. A DataFrame with the default index 0, 1, 2, ... is modelled as the list of its
  rows; the index of a row is its position, which is what \<^verbatim>\<open>reset_index(drop=True)\<close> at
  the end of \<^verbatim>\<open>csv_post_process\<close> establishes. A cell read from a CSV file is a string or
  missing (pandas' NaN / None); a missing cell is \<open>None\<close>, and all missing cells are the
  same value, as they are for \<^verbatim>\<open>isnull\<close>, \<^verbatim>\<open>isin\<close> and \<^verbatim>\<open>map\<close>. Each pandas operation is
  modelled by the result it is documented to give on such a table; what the program raises
  itself is a value of the model, an exception raised inside pandas on a table of another
  shape is not covered.
\<close>

type_synonym cell = "string option"

text \<open>A row as \<^verbatim>\<open>read_csv_portfolio\<close> returns it: the five columns of \<^verbatim>\<open>columns_out\<close>.\<close>

datatype raw_row = Raw
  (fund_name: cell) (account_name: cell) (symbol: cell) (val: cell) (pct_of_portfolio: cell)

text \<open>A holdings row after \<^verbatim>\<open>csv_post_process\<close>: column \<^verbatim>\<open>Class\<close> inserted at position 0,
  \<^verbatim>\<open>Fund Name\<close> renamed to \<^verbatim>\<open>Name\<close> and \<^verbatim>\<open>Account Name\<close> to \<^verbatim>\<open>Account\<close>.\<close>

record row =
  Class :: cell
  Name :: cell
  Account :: cell
  Symbol :: cell
  Value :: cell
  Pct :: cell

text \<open>A row of the Asset Map (columns \<^verbatim>\<open>Name\<close>, \<^verbatim>\<open>Class\<close>, \<^verbatim>\<open>%\<close>).\<close>

record am_entry =
  am_Name :: cell
  am_Class :: cell
  am_Pct :: cell

text \<open>A row of the Class Map (columns \<^verbatim>\<open>Class\<close>, \<^verbatim>\<open>ClassMap\<close>, \<^verbatim>\<open>Order\<close>). The \<^verbatim>\<open>Order\<close>
  column holds numbers when it is read from a file and the strings \<^verbatim>\<open>"3"\<close>, \<^verbatim>\<open>"4"\<close>, ...
  in the hardcoded table, so its type is a parameter; sorting needs it linearly ordered.\<close>

record 'o cm_entry =
  cm_Class :: cell
  cm_ClassMap :: cell
  cm_Order :: "'o option"

section \<open>Dictionaries and column lookups\<close>

text \<open>\<^verbatim>\<open>dict(zip(keys, values))\<close>: the pairs are inserted in order, a later pair
  overwriting an earlier one with the same key.\<close>

definition dict_zip :: "'k list \<Rightarrow> 'v list \<Rightarrow> ('k \<rightharpoonup> 'v)" where
  "dict_zip ks vs = foldl (\<lambda>m (k, v). m(k \<mapsto> v)) Map.empty (zip ks vs)"

text \<open>\<^verbatim>\<open>Series.map(d)\<close> at one cell: the value stored under the cell, missing when the
  dictionary has no such key.\<close>

definition series_map :: "('k \<rightharpoonup> 'v option) \<Rightarrow> 'k \<Rightarrow> 'v option" where
  "series_map d k = (case d k of None \<Rightarrow> None | Some v \<Rightarrow> v)"

section \<open>The normalizer: \<^verbatim>\<open>csv_post_process\<close>\<close>

text \<open>\<^verbatim>\<open>vadf.insert(0, "Class", vadf.Value.where(vadf.Value == "Value", None))\<close> followed by
  the renaming of the two name columns.\<close>

definition insert_Class :: "raw_row \<Rightarrow> row" where
  "insert_Class r =
     \<lparr>Class = (if val r = Some ''Value'' then val r else None),
      Name = fund_name r, Account = account_name r, Symbol = symbol r,
      Value = val r, Pct = pct_of_portfolio r\<rparr>"

text \<open>\<^verbatim>\<open>vadf.loc[vadf.Name.isnull(), "Class"] = vadf["Account"]\<close>\<close>

definition assign_Account :: "row \<Rightarrow> row" where
  "assign_Account r = (if Name r = None then r\<lparr>Class := Account r\<rparr> else r)"

text \<open>\<^verbatim>\<open>vadf["Class"].ffill()\<close>: a scan that carries the last non-missing Class.\<close>

fun ffill :: "cell \<Rightarrow> row list \<Rightarrow> row list" where
  "ffill prev [] = []"
| "ffill prev (r # rs) =
     (case Class r of
        None \<Rightarrow> r\<lparr>Class := prev\<rparr> # ffill prev rs
      | Some c \<Rightarrow> r # ffill (Some c) rs)"

text \<open>\<^verbatim>\<open>vadf.dropna(subset=["Value"]).reset_index(drop=True)\<close>\<close>

definition dropna_Value :: "row list \<Rightarrow> row list" where
  "dropna_Value rs = filter (\<lambda>r. Value r \<noteq> None) rs"

definition csv_post_process :: "raw_row list \<Rightarrow> row list" where
  "csv_post_process vadf =
     dropna_Value (ffill None (map (assign_Account \<circ> insert_Class) vadf))"

section \<open>The classifier: \<^verbatim>\<open>post_process\<close>\<close>

text \<open>Step 1: \<^verbatim>\<open>Class\<close> becomes missing where \<^verbatim>\<open>Symbol\<close> is \<^verbatim>\<open>Subtotal:\<close> or \<^verbatim>\<open>Total:\<close>.\<close>

definition is_total :: "row \<Rightarrow> bool" where
  "is_total r \<longleftrightarrow> Symbol r = Some ''Subtotal:'' \<or> Symbol r = Some ''Total:''"

definition null_totals :: "row list \<Rightarrow> row list" where
  "null_totals vadf = map (\<lambda>r. if is_total r then r\<lparr>Class := None\<rparr> else r) vadf"

text \<open>\<^verbatim>\<open>re.compile(r"(UNITED STATES TREAS|CPN|NTS)").search(s)\<close>: the pattern is an
  alternation of three literals, so a search succeeds exactly when one of them starts at
  some position of \<open>s\<close>. \<open>starts_with\<close> is also Python's \<^verbatim>\<open>str.startswith\<close>.\<close>

fun starts_with :: "string \<Rightarrow> string \<Rightarrow> bool" where
  "starts_with [] s = True"
| "starts_with (p # ps) [] = False"
| "starts_with (p # ps) (c # cs) = (p = c \<and> starts_with ps cs)"

definition fixed_alternatives :: "string list" where
  "fixed_alternatives = [''UNITED STATES TREAS'', ''CPN'', ''NTS'']"

definition match_here :: "string \<Rightarrow> bool" where
  "match_here s = list_ex (\<lambda>p. starts_with p s) fixed_alternatives"

fun fixed_regex_search :: "string \<Rightarrow> bool" where
  "fixed_regex_search [] = match_here []"
| "fixed_regex_search (c # cs) = (match_here (c # cs) \<or> fixed_regex_search cs)"

text \<open>Step 2, run only in fixed mode: \<^verbatim>\<open>vadf["Name"] = vadf["Name"].fillna("None")\<close>,
  then \<^verbatim>\<open>Class\<close> is \<^verbatim>\<open>"Fixed"\<close> where the search on \<^verbatim>\<open>Name\<close> succeeds. The search runs
  on the filled column, so \<open>name_matches\<close> never meets a missing Name there.\<close>

definition fillna_Name :: "row \<Rightarrow> row" where
  "fillna_Name r = (case Name r of None \<Rightarrow> r\<lparr>Name := Some ''None''\<rparr> | Some n \<Rightarrow> r)"

definition name_matches :: "row \<Rightarrow> bool" where
  "name_matches r = (case Name r of None \<Rightarrow> False | Some n \<Rightarrow> fixed_regex_search n)"

definition remap_fixed :: "row list \<Rightarrow> row list" where
  "remap_fixed vadf =
     map (\<lambda>r. if name_matches r then r\<lparr>Class := Some ''Fixed''\<rparr> else r) (map fillna_Name vadf)"

text \<open>Step 3:
  \<^verbatim>\<open>vadf.loc[vadf["Class"].isin(cmdf.Class), "Class"] = vadf["Class"].map(dict(zip(cmdf.Class, cmdf.ClassMap)))\<close>\<close>

definition remap_classes :: "'o cm_entry list \<Rightarrow> row list \<Rightarrow> row list" where
  "remap_classes cmdf vadf =
     map (\<lambda>r. if Class r \<in> set (map cm_Class cmdf)
               then r\<lparr>Class := series_map (dict_zip (map cm_Class cmdf) (map cm_ClassMap cmdf)) (Class r)\<rparr>
               else r) vadf"

text \<open>Step 4:
  \<^verbatim>\<open>vadf.loc[vadf["Name"].isin(amdf.Name), "Class"] = vadf["Name"].map(dict(zip(amdf.Name, amdf.Class)))\<close>\<close>

definition remap_assets :: "am_entry list \<Rightarrow> row list \<Rightarrow> row list" where
  "remap_assets amdf vadf =
     map (\<lambda>r. if Name r \<in> set (map am_Name amdf)
               then r\<lparr>Class := series_map (dict_zip (map am_Name amdf) (map am_Class amdf)) (Name r)\<rparr>
               else r) vadf"

text \<open>\<^verbatim>\<open>post_process\<close> changes \<^verbatim>\<open>vadf\<close> in place; the model returns the changed table. The
  message it prints in fixed mode is not part of the table and is left out.\<close>

definition post_process :: "row list \<Rightarrow> 'o cm_entry list \<Rightarrow> am_entry list \<Rightarrow> bool \<Rightarrow> row list" where
  "post_process vadf cmdf amdf fixed =
     remap_assets amdf
       (remap_classes cmdf
          ((if fixed then remap_fixed else id) (null_totals vadf)))"

section \<open>The report writer: \<^verbatim>\<open>write_results\<close>\<close>

text \<open>The date suffix of the output file names. \<^verbatim>\<open>datetime.now().strftime(date_format)\<close>
  reads the clock; the model takes the formatting of the current date as the parameter
  \<open>now_strftime\<close>.\<close>

definition date_suffix_of :: "(string \<Rightarrow> string) \<Rightarrow> bool \<Rightarrow> string \<Rightarrow> string" where
  "date_suffix_of now_strftime date_on date_format =
     (if date_on then ''-'' @ now_strftime date_format else [])"

text \<open>A row of the candidates file: columns \<^verbatim>\<open>Name\<close>, \<^verbatim>\<open>Class\<close> and the added \<^verbatim>\<open>%\<close>.\<close>

record cand =
  cand_Name :: cell
  cand_Class :: cell
  cand_Pct :: real

text \<open>\<^verbatim>\<open>vadf.dropna(subset=["Class"])[vadf.Class.str.startswith("Other").dropna()][["Name", "Class"]]\<close>:
  the rows whose Class is present and starts with \<^verbatim>\<open>Other\<close>, projected to two columns.\<close>

definition is_other :: "row \<Rightarrow> bool" where
  "is_other r = (case Class r of None \<Rightarrow> False | Some c \<Rightarrow> starts_with ''Other'' c)"

definition other_rows :: "row list \<Rightarrow> (cell \<times> cell) list" where
  "other_rows vadf = map (\<lambda>r. (Name r, Class r)) (filter is_other vadf)"

text \<open>The rows removed before sorting: \<^verbatim>\<open>Symbol\<close> is \<^verbatim>\<open>Subtotal:\<close> or \<^verbatim>\<open>Total:\<close>, or
  \<^verbatim>\<open>Name\<close> is \<^verbatim>\<open>Name\<close>.\<close>

definition is_structural :: "row \<Rightarrow> bool" where
  "is_structural r \<longleftrightarrow>
     Symbol r = Some ''Subtotal:'' \<or> Symbol r = Some ''Total:'' \<or> Name r = Some ''Name''"

definition drop_structural :: "row list \<Rightarrow> row list" where
  "drop_structural vadf = filter (\<lambda>r. \<not> is_structural r) vadf"

text \<open>\<^verbatim>\<open>sort_values(by=["Class"], kind="mergesort", key=...)\<close>. pandas sorts the rows whose key
  is present with the stable algorithm it is asked for and puts the rows whose key is
  missing after them, in their previous order (\<^verbatim>\<open>na_position="last"\<close>, the default).\<close>

fun merge_key :: "('a \<Rightarrow> 'k::linorder) \<Rightarrow> 'a list \<Rightarrow> 'a list \<Rightarrow> 'a list" where
  "merge_key f [] ys = ys"
| "merge_key f (x # xs) [] = x # xs"
| "merge_key f (x # xs) (y # ys) =
     (if f x \<le> f y then x # merge_key f xs (y # ys) else y # merge_key f (x # xs) ys)"

function mergesort_key :: "('a \<Rightarrow> 'k::linorder) \<Rightarrow> 'a list \<Rightarrow> 'a list" where
  "mergesort_key f xs =
     (if length xs \<le> 1 then xs
      else merge_key f (mergesort_key f (take (length xs div 2) xs))
                       (mergesort_key f (drop (length xs div 2) xs)))"
  by pat_completeness auto
termination
  by (relation "measure (\<lambda>(f, xs). length xs)") auto

definition sort_values :: "('a \<Rightarrow> 'k::linorder option) \<Rightarrow> 'a list \<Rightarrow> 'a list" where
  "sort_values key rs =
     mergesort_key (\<lambda>r. the (key r)) (filter (\<lambda>r. key r \<noteq> None) rs) @ filter (\<lambda>r. key r = None) rs"

text \<open>\<^verbatim>\<open>cmdf.Order.notnull().values.sum() > 0\<close>\<close>

definition order_present :: "'o cm_entry list \<Rightarrow> bool" where
  "order_present cmdf \<longleftrightarrow> 0 < length (filter (\<lambda>e. cm_Order e \<noteq> None) cmdf)"

text \<open>The sort key \<^verbatim>\<open>x.map(dict(zip(cmdf.ClassMap, cmdf.Order)))\<close> at one row.\<close>

definition order_key :: "'o cm_entry list \<Rightarrow> row \<Rightarrow> 'o option" where
  "order_key cmdf r = series_map (dict_zip (map cm_ClassMap cmdf) (map cm_Order cmdf)) (Class r)"

definition sort_by_Class :: "('o::linorder) cm_entry list \<Rightarrow> row list \<Rightarrow> row list" where
  "sort_by_Class cmdf vadf =
     (if order_present cmdf then sort_values (order_key cmdf) vadf else sort_values Class vadf)"

text \<open>What \<^verbatim>\<open>write_results\<close> writes: each file is its name and its rows; the candidates
  file is \<open>None\<close> when it is not written. The progress messages, which the quiet flag
  suppresses, and the creation of the directory \<^verbatim>\<open>out\<close> are left out.\<close>

record outputs =
  candidates_csv :: "(string \<times> cand list) option"
  report_csv :: "string \<times> row list"
  alloc_csv :: "string \<times> row list"

definition write_results ::
  "(string \<Rightarrow> string) \<Rightarrow> row list \<Rightarrow> ('o::linorder) cm_entry list \<Rightarrow> bool \<Rightarrow> string \<Rightarrow> outputs" where
  "write_results now_strftime vadf cmdf date_on date_format =
     (let date_suffix = date_suffix_of now_strftime date_on date_format;
          odf = other_rows vadf
      in \<lparr>candidates_csv =
            (if length odf > 0
             then Some (''Asset-Map-Candidates'' @ date_suffix @ ''.csv'',
                        map (\<lambda>(n, c). \<lparr>cand_Name = n, cand_Class = c, cand_Pct = 1.0\<rparr>) odf)
             else None),
          report_csv = (''out/Van-Alloc-Rep'' @ date_suffix @ ''.csv'', vadf),
          alloc_csv = (''out/Van-Alloc'' @ date_suffix @ ''.csv'',
                       sort_by_Class cmdf (drop_structural vadf))\<rparr>)"

section \<open>The asset map loader: \<^verbatim>\<open>read_asset_map\<close>\<close>

text \<open>A table as \<^verbatim>\<open>pd.read_csv\<close> returns it: the column names and the rows of cells. The
  file system is a partial map from paths to tables; a path outside its domain is a file
  that does not exist, where \<^verbatim>\<open>pd.read_csv\<close> raises \<^verbatim>\<open>FileNotFoundError\<close>.\<close>

record frame =
  columns :: "string list"
  cells :: "cell list list"

datatype error = FileNotFoundError | KeyError

definition read_csv :: "(string \<rightharpoonup> frame) \<Rightarrow> string \<Rightarrow> error + frame" where
  "read_csv fs path = (case fs path of None \<Rightarrow> Inl FileNotFoundError | Some df \<Rightarrow> Inr df)"

text \<open>\<^verbatim>\<open>df[[c1, c2, ...]]\<close>: the listed columns in the listed order, \<^verbatim>\<open>KeyError\<close> when one
  of them is not a column of the table.\<close>

definition cell_at :: "string list \<Rightarrow> cell list \<Rightarrow> string \<Rightarrow> cell" where
  "cell_at cols r c = (case map_of (zip cols r) c of None \<Rightarrow> None | Some v \<Rightarrow> v)"

definition select_columns :: "string list \<Rightarrow> frame \<Rightarrow> error + frame" where
  "select_columns cols df =
     (if list_all (\<lambda>c. c \<in> set (columns df)) cols
      then Inr \<lparr>columns = cols, cells = map (\<lambda>r. map (cell_at (columns df) r) cols) (cells df)\<rparr>
      else Inl KeyError)"

text \<open>\<^verbatim>\<open>read_asset_map\<close> returns the table or raises, and prints; the model returns the
  result together with the lines printed.\<close>

definition read_asset_map ::
  "(string \<rightharpoonup> frame) \<Rightarrow> string \<Rightarrow> bool \<Rightarrow> (error + frame) \<times> string list" where
  "read_asset_map fs asset_map_path quiet =
     (case read_csv fs asset_map_path of
        Inr df \<Rightarrow>
          (case select_columns [''Name'', ''Class'', ''%''] df of
             Inr asset_map_df \<Rightarrow>
               (Inr asset_map_df,
                if \<not> quiet then [''Read Asset map from '' @ asset_map_path] else [])
           | Inl e \<Rightarrow> (Inl e, []))
      | Inl FileNotFoundError \<Rightarrow>
          (Inr \<lparr>columns = [''Name'', ''Class'', ''%''], cells = []\<rparr>,
           [''Asset Map not found at '' @ asset_map_path
              @ '' - no additional asset mapping will be done''])
      | Inl KeyError \<Rightarrow> (Inl KeyError, []))"

text \<open>The rows of an asset-map table as \<^verbatim>\<open>post_process\<close> reads them through
  \<^verbatim>\<open>amdf.Name\<close> and \<^verbatim>\<open>amdf.Class\<close>.\<close>

definition am_entries :: "frame \<Rightarrow> am_entry list" where
  "am_entries df =
     map (\<lambda>r. \<lparr>am_Name = cell_at (columns df) r ''Name'',
               am_Class = cell_at (columns df) r ''Class'',
               am_Pct = cell_at (columns df) r ''%''\<rparr>) (cells df)"

section \<open>The class map loader's fallback table\<close>

text \<open>The table \<^verbatim>\<open>read_class_map\<close> builds when the class-map file does not exist. Its
  \<^verbatim>\<open>Order\<close> column holds strings.\<close>

definition hardcoded_class_map :: "string cm_entry list" where
  "hardcoded_class_map =
     [\<lparr>cm_Class = Some ''U.S. stocks & stock funds'', cm_ClassMap = Some ''U.S. stocks'',
       cm_Order = Some ''3''\<rparr>,
      \<lparr>cm_Class = Some ''International stocks & stock funds'', cm_ClassMap = Some ''Intl stocks'',
       cm_Order = Some ''4''\<rparr>,
      \<lparr>cm_Class = Some ''Other stocks'', cm_ClassMap = Some ''Other stocks'',
       cm_Order = Some ''6''\<rparr>,
      \<lparr>cm_Class = Some ''U.S. bonds & bond funds'', cm_ClassMap = Some ''U.S. bonds'',
       cm_Order = Some ''1''\<rparr>,
      \<lparr>cm_Class = Some ''International bonds & bond funds'', cm_ClassMap = Some ''Intl bonds'',
       cm_Order = Some ''2''\<rparr>,
      \<lparr>cm_Class = Some ''Other bonds'', cm_ClassMap = Some ''Other bonds'',
       cm_Order = Some ''5''\<rparr>,
      \<lparr>cm_Class = Some ''Short term reserves'', cm_ClassMap = Some ''Cash'',
       cm_Order = Some ''0''\<rparr>,
      \<lparr>cm_Class = Some ''Other asset types'', cm_ClassMap = Some ''Other asset types'',
       cm_Order = Some ''7''\<rparr>]"

section \<open>Notions used in the statements\<close>

text \<open>The Name a row has after \<^verbatim>\<open>fillna("None")\<close>.\<close>

definition name_or_None :: "row \<Rightarrow> string" where
  "name_or_None r = (case Name r of None \<Rightarrow> ''None'' | Some n \<Rightarrow> n)"

text \<open>The order in which \<^verbatim>\<open>sort_values\<close> leaves the sort keys: present keys ascending,
  missing keys last.\<close>

definition na_last_le :: "'k::linorder option \<Rightarrow> 'k option \<Rightarrow> bool" where
  "na_last_le a b =
     (case b of None \<Rightarrow> True | Some y \<Rightarrow> (case a of None \<Rightarrow> False | Some x \<Rightarrow> x \<le> y))"

text \<open>A clock for the examples: whatever the format, the date is printed as 2024-05-17.\<close>

definition clock_2024 :: "string \<Rightarrow> string" where
  "clock_2024 date_format = ''2024-05-17''"

text \<open>A holdings table for the examples, as \<^verbatim>\<open>post_process\<close> leaves one: two accounts and
  a subtotal row.\<close>

definition example_holdings :: "row list" where
  "example_holdings =
     [\<lparr>Class = Some ''U.S. stocks'', Name = Some ''Total Stock Mkt Idx Adm'',
       Account = Some ''Brokerage'', Symbol = Some ''VTSAX'', Value = Some ''7000'', Pct = None\<rparr>,
      \<lparr>Class = Some ''Cash'', Name = Some ''Federal Money Market'',
       Account = Some ''Brokerage'', Symbol = Some ''VMFXX'', Value = Some ''250'', Pct = None\<rparr>,
      \<lparr>Class = None, Name = None,
       Account = None, Symbol = Some ''Subtotal:'', Value = Some ''7250'', Pct = None\<rparr>,
      \<lparr>Class = Some ''Other asset types'', Name = Some ''Gold Trust'',
       Account = Some ''IRA'', Symbol = Some ''GLD'', Value = Some ''100'', Pct = None\<rparr>,
      \<lparr>Class = Some ''U.S. stocks'', Name = Some ''500 Index Admiral'',
       Account = Some ''IRA'', Symbol = Some ''VFIAX'', Value = Some ''900'', Pct = None\<rparr>]"

section \<open>Auxiliary lemmas\<close>

lemma dict_zip_map_of: "dict_zip ks vs = map_of (rev (zip ks vs))"
proof -
  define ins :: "('a \<rightharpoonup> 'b) \<Rightarrow> 'a \<times> 'b \<Rightarrow> ('a \<rightharpoonup> 'b)"
    where "ins = (\<lambda>m (k, v). m(k \<mapsto> v))"
  have ins: "ins m (k, v) = m ++ [k \<mapsto> v]" for m k v
    by (simp add: ins_def)
  have "foldl ins m kvs = m ++ map_of (rev kvs)" for m kvs
  proof (induction kvs arbitrary: m)
    case Nil
    show ?case by simp
  next
    case (Cons kv kvs)
    obtain k v where kv: "kv = (k, v)" by (cases kv)
    have "foldl ins m (kv # kvs) = (m ++ [k \<mapsto> v]) ++ map_of (rev kvs)"
      unfolding kv foldl_Cons ins by (rule Cons.IH)
    also have "\<dots> = m ++ map_of (rev (kv # kvs))"
      unfolding kv by (simp del: map_add_upd)
    finally show ?case .
  qed
  from this[of Map.empty "zip ks vs"] show ?thesis
    unfolding dict_zip_def ins_def by simp
qed

lemma dict_zip_in_keys:
  assumes "k \<in> set (map f es)"
  shows "\<exists>e \<in> set es. f e = k \<and> dict_zip (map f es) (map g es) k = Some (g e)"
proof -
  have z: "zip (map f es) (map g es) = map (\<lambda>e. (f e, g e)) es"
    by (induction es) simp_all
  from assms have "k \<in> fst ` set (rev (map (\<lambda>e. (f e, g e)) es))" by force
  then obtain v where v: "map_of (rev (map (\<lambda>e. (f e, g e)) es)) k = Some v"
    by (metis map_of_eq_None_iff not_Some_eq)
  then have "(k, v) \<in> set (rev (map (\<lambda>e. (f e, g e)) es))" by (rule map_of_SomeD)
  then obtain e where "e \<in> set es" "f e = k" "g e = v" by auto
  with v show ?thesis by (auto simp: dict_zip_map_of z)
qed

lemma dict_zip_not_in_keys:
  assumes "k \<notin> set (map f es)"
  shows "dict_zip (map f es) (map g es) k = None"
proof -
  have z: "zip (map f es) (map g es) = map (\<lambda>e. (f e, g e)) es"
    by (induction es) simp_all
  from assms show ?thesis
    by (simp add: dict_zip_map_of z map_of_eq_None_iff image_image)
qed

lemma dict_zip_last:
  assumes "j < length es" and "f (es ! j) = k"
    and "\<forall>i. j < i \<and> i < length es \<longrightarrow> f (es ! i) \<noteq> k"
  shows "dict_zip (map f es) (map g es) k = Some (g (es ! j))"
  using assms
proof (induction es arbitrary: j rule: rev_induct)
  case Nil
  then show ?case by simp
next
  case (snoc e es)
  have z: "zip (map f (es @ [e])) (map g (es @ [e])) = zip (map f es) (map g es) @ [(f e, g e)]"
    by simp
  show ?case
  proof (cases "j = length es")
    case True
    then show ?thesis using snoc.prems by (simp add: dict_zip_map_of)
  next
    case False
    with snoc.prems have j: "j < length es" by simp
    have ne: "f e \<noteq> k" using snoc.prems(3)[rule_format, of "length es"] j by simp
    have "dict_zip (map f es) (map g es) k = Some (g (es ! j))"
    proof (rule snoc.IH[OF j])
      show "f (es ! j) = k" using snoc.prems(2) j by (simp add: nth_append)
      show "\<forall>i. j < i \<and> i < length es \<longrightarrow> f (es ! i) \<noteq> k"
        using snoc.prems(3) by (auto simp: nth_append split: if_splits)
    qed
    then show ?thesis using ne j unfolding dict_zip_map_of z by (simp add: nth_append)
  qed
qed

lemma starts_with_iff: "starts_with p s \<longleftrightarrow> (\<exists>v. s = p @ v)"
  by (induction p s rule: starts_with.induct) auto

lemma match_here_iff: "match_here s \<longleftrightarrow> (\<exists>p \<in> set fixed_alternatives. \<exists>v. s = p @ v)"
  by (simp add: match_here_def list_ex_iff starts_with_iff)

lemma fixed_regex_search_iff:
  "fixed_regex_search s \<longleftrightarrow> (\<exists>p \<in> set fixed_alternatives. \<exists>u v. s = u @ p @ v)"
proof (induction s)
  case Nil
  show ?case by (auto simp: match_here_iff)
next
  case (Cons c cs)
  show ?case
  proof
    assume "fixed_regex_search (c # cs)"
    then consider "match_here (c # cs)" | "fixed_regex_search cs" by auto
    then show "\<exists>p \<in> set fixed_alternatives. \<exists>u v. c # cs = u @ p @ v"
    proof cases
      case 1
      then obtain p v where "p \<in> set fixed_alternatives" "c # cs = [] @ p @ v"
        by (auto simp: match_here_iff)
      then show ?thesis by blast
    next
      case 2
      then obtain p u v where "p \<in> set fixed_alternatives" "cs = u @ p @ v"
        using Cons.IH by blast
      then have "c # cs = (c # u) @ p @ v" by simp
      with \<open>p \<in> set fixed_alternatives\<close> show ?thesis by blast
    qed
  next
    assume "\<exists>p \<in> set fixed_alternatives. \<exists>u v. c # cs = u @ p @ v"
    then obtain p u v where p: "p \<in> set fixed_alternatives" and e: "c # cs = u @ p @ v" by blast
    show "fixed_regex_search (c # cs)"
    proof (cases u)
      case Nil
      with p e have "match_here (c # cs)" by (auto simp: match_here_iff)
      then show ?thesis by simp
    next
      case (Cons a u')
      with e have "cs = u' @ p @ v" by simp
      with p Cons.IH have "fixed_regex_search cs" by blast
      then show ?thesis by simp
    qed
  qed
qed

lemma length_null_totals: "length (null_totals vadf) = length vadf"
  by (simp add: null_totals_def)

lemma length_remap_fixed: "length (remap_fixed vadf) = length vadf"
  by (simp add: remap_fixed_def)

lemma length_remap_classes: "length (remap_classes cmdf vadf) = length vadf"
  by (simp add: remap_classes_def)

lemma length_remap_assets: "length (remap_assets amdf vadf) = length vadf"
  by (simp add: remap_assets_def)

lemma length_post_process: "length (post_process vadf cmdf amdf fixed) = length vadf"
  by (simp add: post_process_def length_remap_assets length_remap_classes length_remap_fixed
      length_null_totals)

lemma Name_null_totals: "i < length vadf \<Longrightarrow> Name (null_totals vadf ! i) = Name (vadf ! i)"
  by (simp add: null_totals_def)

lemma Symbol_null_totals: "i < length vadf \<Longrightarrow> Symbol (null_totals vadf ! i) = Symbol (vadf ! i)"
  by (simp add: null_totals_def)

lemma Class_null_totals:
  "i < length vadf \<Longrightarrow>
   Class (null_totals vadf ! i) = (if is_total (vadf ! i) then None else Class (vadf ! i))"
  by (simp add: null_totals_def)

lemma Name_remap_fixed:
  "i < length vadf \<Longrightarrow> Name (remap_fixed vadf ! i) = Some (name_or_None (vadf ! i))"
  by (simp add: remap_fixed_def fillna_Name_def name_or_None_def split: option.splits)

lemma Symbol_remap_fixed:
  "i < length vadf \<Longrightarrow> Symbol (remap_fixed vadf ! i) = Symbol (vadf ! i)"
  by (simp add: remap_fixed_def fillna_Name_def split: option.splits)

lemma Class_remap_fixed:
  "i < length vadf \<Longrightarrow>
   Class (remap_fixed vadf ! i) =
     (if fixed_regex_search (name_or_None (vadf ! i)) then Some ''Fixed'' else Class (vadf ! i))"
  by (simp add: remap_fixed_def fillna_Name_def name_matches_def name_or_None_def
      split: option.splits)

lemma Name_remap_classes:
  "i < length vadf \<Longrightarrow> Name (remap_classes cmdf vadf ! i) = Name (vadf ! i)"
  by (simp add: remap_classes_def)

lemma Symbol_remap_classes:
  "i < length vadf \<Longrightarrow> Symbol (remap_classes cmdf vadf ! i) = Symbol (vadf ! i)"
  by (simp add: remap_classes_def)

lemma Class_remap_classes:
  "i < length vadf \<Longrightarrow>
   Class (remap_classes cmdf vadf ! i) =
     (if Class (vadf ! i) \<in> set (map cm_Class cmdf)
      then series_map (dict_zip (map cm_Class cmdf) (map cm_ClassMap cmdf)) (Class (vadf ! i))
      else Class (vadf ! i))"
  by (simp add: remap_classes_def)

lemma Name_remap_assets:
  "i < length vadf \<Longrightarrow> Name (remap_assets amdf vadf ! i) = Name (vadf ! i)"
  by (simp add: remap_assets_def)

lemma Symbol_remap_assets:
  "i < length vadf \<Longrightarrow> Symbol (remap_assets amdf vadf ! i) = Symbol (vadf ! i)"
  by (simp add: remap_assets_def)

lemma Class_remap_assets:
  "i < length vadf \<Longrightarrow>
   Class (remap_assets amdf vadf ! i) =
     (if Name (vadf ! i) \<in> set (map am_Name amdf)
      then series_map (dict_zip (map am_Name amdf) (map am_Class amdf)) (Name (vadf ! i))
      else Class (vadf ! i))"
  by (simp add: remap_assets_def)

lemmas pp_lengths = length_remap_assets length_remap_classes length_remap_fixed length_null_totals

lemma Name_post_process:
  "i < length vadf \<Longrightarrow>
   Name (post_process vadf cmdf amdf fixed ! i) =
     (if fixed then Some (name_or_None (vadf ! i)) else Name (vadf ! i))"
  by (simp add: post_process_def pp_lengths Name_remap_assets Name_remap_classes Name_remap_fixed
      Name_null_totals name_or_None_def)

lemma Symbol_post_process:
  "i < length vadf \<Longrightarrow> Symbol (post_process vadf cmdf amdf fixed ! i) = Symbol (vadf ! i)"
  by (simp add: post_process_def pp_lengths Symbol_remap_assets Symbol_remap_classes
      Symbol_remap_fixed Symbol_null_totals)

lemma mset_merge_key: "mset (merge_key f xs ys) = mset xs + mset ys"
  by (induction f xs ys rule: merge_key.induct) simp_all

lemma set_merge_key: "set (merge_key f xs ys) = set xs \<union> set ys"
  by (metis mset_merge_key set_mset_mset set_mset_union)

lemma sorted_merge_key:
  "sorted (map f xs) \<Longrightarrow> sorted (map f ys) \<Longrightarrow> sorted (map f (merge_key f xs ys))"
  by (induction f xs ys rule: merge_key.induct) (auto simp: set_merge_key)

lemma filter_merge_key:
  "sorted (map f xs) \<Longrightarrow> sorted (map f ys) \<Longrightarrow>
   filter (\<lambda>x. f x = k) (merge_key f xs ys) = filter (\<lambda>x. f x = k) xs @ filter (\<lambda>x. f x = k) ys"
proof (induction f xs ys rule: merge_key.induct)
  case (1 f ys)
  show ?case by simp
next
  case (2 f x xs)
  show ?case by simp
next
  case (3 f x xs y ys)
  show ?case
  proof (cases "f x \<le> f y")
    case True
    with 3 show ?thesis by simp
  next
    case False
    have "filter (\<lambda>z. f z = f y) (x # xs) = []"
      using False "3.prems"(1) by (auto simp: filter_empty_conv)
    with False 3 show ?thesis by (cases "f y = k") auto
  qed
qed

declare mergesort_key.simps [simp del]

lemma mset_mergesort_key: "mset (mergesort_key f xs) = mset xs"
proof (induction f xs rule: mergesort_key.induct)
  case (1 f xs)
  show ?case
  proof (cases "length xs \<le> 1")
    case True
    then show ?thesis by (simp add: mergesort_key.simps[of f xs])
  next
    case False
    have "mset (mergesort_key f xs) =
          mset (take (length xs div 2) xs) + mset (drop (length xs div 2) xs)"
      using False 1 by (simp add: mergesort_key.simps[of f xs] mset_merge_key)
    also have "\<dots> = mset (take (length xs div 2) xs @ drop (length xs div 2) xs)"
      by (simp only: mset_append)
    finally show ?thesis by simp
  qed
qed

lemma sorted_mergesort_key: "sorted (map f (mergesort_key f xs))"
proof (induction f xs rule: mergesort_key.induct)
  case (1 f xs)
  show ?case
  proof (cases "length xs \<le> 1")
    case True
    then have "mergesort_key f xs = xs" by (simp add: mergesort_key.simps[of f xs])
    moreover from True have "sorted (map f xs)"
      by (cases xs) simp_all
    ultimately show ?thesis by simp
  next
    case False
    with 1 show ?thesis by (simp add: mergesort_key.simps[of f xs] sorted_merge_key)
  qed
qed

lemma filter_mergesort_key:
  "filter (\<lambda>x. f x = k) (mergesort_key f xs) = filter (\<lambda>x. f x = k) xs"
proof (induction f xs rule: mergesort_key.induct)
  case (1 f xs)
  show ?case
  proof (cases "length xs \<le> 1")
    case True
    then show ?thesis by (simp add: mergesort_key.simps[of f xs])
  next
    case False
    let ?n = "length xs div 2"
    have "filter (\<lambda>x. f x = k) (mergesort_key f xs) =
          filter (\<lambda>x. f x = k) (take ?n xs) @ filter (\<lambda>x. f x = k) (drop ?n xs)"
      using False 1 by (simp add: mergesort_key.simps[of f xs] filter_merge_key sorted_mergesort_key)
    also have "\<dots> = filter (\<lambda>x. f x = k) (take ?n xs @ drop ?n xs)"
      by (simp only: filter_append)
    finally show ?thesis by simp
  qed
qed

lemma mset_sort_values: "mset (sort_values key rs) = mset rs"
proof -
  have "mset (sort_values key rs) = filter_mset (\<lambda>r. key r \<noteq> None) (mset rs) + filter_mset (\<lambda>r. \<not> key r \<noteq> None) (mset rs)"
    by (simp add: sort_values_def mset_mergesort_key)
  then show ?thesis by (simp only: multiset_partition[symmetric])
qed

lemma set_sort_values: "set (sort_values key rs) = set rs"
  by (metis mset_sort_values set_mset_mset)

lemma length_sort_values: "length (sort_values key rs) = length rs"
  by (metis mset_sort_values size_mset)

lemma sorted_sort_values:
  "sorted_wrt (\<lambda>a b. na_last_le (key a) (key b)) (sort_values key rs)"
proof -
  let ?p = "filter (\<lambda>r. key r \<noteq> None) rs"
  let ?s = "mergesort_key (\<lambda>r. the (key r)) ?p"
  have mem: "key r \<noteq> None" if "r \<in> set ?s" for r
    using that by (metis (mono_tags, lifting) mem_Collect_eq mset_mergesort_key set_filter set_mset_mset)
  have "sorted_wrt (\<lambda>a b. the (key a) \<le> the (key b)) ?s"
    using sorted_mergesort_key[of "\<lambda>r. the (key r)" ?p] by (simp add: sorted_map)
  then have "sorted_wrt (\<lambda>a b. na_last_le (key a) (key b)) ?s"
  proof (rule sorted_wrt_mono_rel[rotated])
    fix a b
    assume "a \<in> set ?s" "b \<in> set ?s" "the (key a) \<le> the (key b)"
    with mem[of a] mem[of b] show "na_last_le (key a) (key b)"
      by (auto simp: na_last_le_def)
  qed
  moreover have "sorted_wrt (\<lambda>a b. na_last_le (key a) (key b)) (filter (\<lambda>r. key r = None) rs)"
    by (rule sorted_wrt_mono_rel[where P = "\<lambda>_ _. True"]) (auto simp: na_last_le_def)
  ultimately show ?thesis
    by (auto simp: sort_values_def sorted_wrt_append na_last_le_def)
qed

lemma filter_sort_values:
  "filter (\<lambda>r. key r = v) (sort_values key rs) = filter (\<lambda>r. key r = v) rs"
proof (cases v)
  case None
  let ?p = "filter (\<lambda>r. key r \<noteq> None) rs"
  have "set (mergesort_key (\<lambda>r. the (key r)) ?p) = set ?p"
    by (metis mset_mergesort_key set_mset_mset)
  then have "filter (\<lambda>r. key r = None) (mergesort_key (\<lambda>r. the (key r)) ?p) = []"
    by (auto simp: filter_empty_conv)
  with None show ?thesis by (simp add: sort_values_def)
next
  case (Some x)
  let ?p = "filter (\<lambda>r. key r \<noteq> None) rs"
  let ?s = "mergesort_key (\<lambda>r. the (key r)) ?p"
  have s: "set ?s = set ?p" by (metis mset_mergesort_key set_mset_mset)
  have "filter (\<lambda>r. key r = Some x) ?s = filter (\<lambda>r. key r \<noteq> None) (filter (\<lambda>r. the (key r) = x) ?s)"
    unfolding filter_filter by (rule filter_cong) (use s in auto)
  also have "\<dots> = filter (\<lambda>r. key r \<noteq> None) (filter (\<lambda>r. the (key r) = x) ?p)"
    by (simp only: filter_mergesort_key)
  also have "\<dots> = filter (\<lambda>r. key r = Some x) rs"
    unfolding filter_filter by (rule filter_cong) auto
  finally have main: "filter (\<lambda>r. key r = Some x) ?s = filter (\<lambda>r. key r = Some x) rs" .
  have "filter (\<lambda>r. key r = Some x) (filter (\<lambda>r. key r = None) rs) = []"
    by (auto simp: filter_empty_conv)
  with main Some show ?thesis by (simp only: sort_values_def filter_append append_Nil2)
qed

lemma write_results_alloc:
  "snd (alloc_csv (write_results now vadf cmdf date_on fmt)) = sort_by_Class cmdf (drop_structural vadf)"
  by (simp add: write_results_def Let_def)

lemma write_results_report:
  "snd (report_csv (write_results now vadf cmdf date_on fmt)) = vadf"
  by (simp add: write_results_def Let_def)

lemma order_present_iff: "order_present cmdf \<longleftrightarrow> (\<exists>e \<in> set cmdf. cm_Order e \<noteq> None)"
  by (auto simp: order_present_def filter_empty_conv)

lemma mset_sort_by_Class: "mset (sort_by_Class cmdf rs) = mset rs"
  by (simp add: sort_by_Class_def mset_sort_values)

lemma is_other_iff: "is_other r \<longleftrightarrow> (\<exists>s. Class r = Some (''Other'' @ s))"
  by (auto simp: is_other_def starts_with_iff split: option.splits)

lemma Class_post_process:
  assumes "i < length vadf"
  shows "Class (post_process vadf cmdf amdf fixed ! i) =
     (let r = vadf ! i;
          n = (if fixed then Some (name_or_None r) else Name r);
          c1 = (if is_total r then None else Class r);
          c2 = (if fixed \<and> fixed_regex_search (name_or_None r) then Some ''Fixed'' else c1);
          c3 = (if c2 \<in> set (map cm_Class cmdf)
                then series_map (dict_zip (map cm_Class cmdf) (map cm_ClassMap cmdf)) c2 else c2)
      in if n \<in> set (map am_Name amdf)
         then series_map (dict_zip (map am_Name amdf) (map am_Class amdf)) n else c3)"
proof (cases fixed)
  case True
  have n: "name_or_None (null_totals vadf ! i) = name_or_None (vadf ! i)"
    using assms by (simp add: name_or_None_def Name_null_totals)
  show ?thesis
    using assms True n unfolding post_process_def Let_def
    by (simp add: pp_lengths Class_remap_assets Class_remap_classes Class_remap_fixed
        Class_null_totals Name_remap_classes Name_remap_fixed)
next
  case False
  show ?thesis
    using assms False unfolding post_process_def Let_def
    by (simp add: pp_lengths Class_remap_assets Class_remap_classes
        Class_null_totals Name_remap_classes Name_null_totals)
qed

lemma series_map_not_None:
  assumes "k \<in> set (map f es)" and "\<forall>e \<in> set es. g e \<noteq> None"
  shows "series_map (dict_zip (map f es) (map g es)) k \<noteq> None"
proof -
  from dict_zip_in_keys[OF assms(1), of g]
  obtain e where "e \<in> set es" "dict_zip (map f es) (map g es) k = Some (g e)" by blast
  with assms(2) show ?thesis by (simp add: series_map_def)
qed

lemma Name_post_process_list:
  "map Name (post_process vadf cmdf amdf False) = map Name vadf"
  by (rule nth_equalityI) (simp_all add: length_post_process Name_post_process)

lemma set_alloc:
  "set (snd (alloc_csv (write_results now vadf cmdf date_on fmt))) = {r \<in> set vadf. \<not> is_structural r}"
proof -
  have "set (sort_by_Class cmdf (drop_structural vadf)) = set (drop_structural vadf)"
    using mset_sort_by_Class by (rule mset_eq_setD)
  then show ?thesis by (simp add: write_results_alloc drop_structural_def)
qed

lemma ffill_Some [simp]: "Class r = Some c \<Longrightarrow> ffill prev (r # rs) = r # ffill (Some c) rs"
  by simp

lemma ffill_None [simp]: "Class r = None \<Longrightarrow> ffill prev (r # rs) = r\<lparr>Class := prev\<rparr> # ffill prev rs"
  by simp

section \<open>The claims\<close>

subsection \<open>C1: the Asset Map has the final say\<close>

text \<open>
  Claim C1. In fixed mode, a row whose Name matches the fixed-income pattern and is the Name
  of an Asset Map entry ends \<^verbatim>\<open>post_process\<close> with that entry's Class, although step 2
  had set its Class to \<^verbatim>\<open>Fixed\<close>: the asset-level mapping runs last, after the fixed-income
  rule and after the class-map renaming. The Asset Map is keyed by Name; where the file
  repeats a Name the dictionary keeps the last row, so the entry of a Name is the last row
  that carries it.
\<close>

theorem asset_map_has_final_say:
  assumes "i < length vadf" and "Name (vadf ! i) = Some n" and "fixed_regex_search n"
    and "j < length amdf" and "am_Name (amdf ! j) = Some n"
    and "\<forall>k. j < k \<and> k < length amdf \<longrightarrow> am_Name (amdf ! k) \<noteq> Some n"
  shows "Class (remap_fixed (null_totals vadf) ! i) = Some ''Fixed''
       \<and> Class (post_process vadf cmdf amdf True ! i) = am_Class (amdf ! j)"
proof -
  let ?t = "remap_classes cmdf (remap_fixed (null_totals vadf))"
  have len: "i < length ?t" using assms(1) by (simp add: pp_lengths)
  have nm: "name_or_None (null_totals vadf ! i) = n"
    using assms(1,2) by (simp add: name_or_None_def Name_null_totals)
  have name: "Name (?t ! i) = Some n"
    using assms(1) nm by (simp add: pp_lengths Name_remap_classes Name_remap_fixed)
  have key: "Some n \<in> set (map am_Name amdf)"
    using assms(4,5) by (metis length_map nth_map nth_mem)
  have look: "dict_zip (map am_Name amdf) (map am_Class amdf) (Some n) = Some (am_Class (amdf ! j))"
    by (rule dict_zip_last[OF assms(4,5,6)])
  have "Class (remap_fixed (null_totals vadf) ! i) = Some ''Fixed''"
    using assms(1,3) nm by (simp add: pp_lengths Class_remap_fixed)
  moreover have "Class (post_process vadf cmdf amdf True ! i) = am_Class (amdf ! j)"
    unfolding post_process_def using len name key look
    by (simp add: Class_remap_assets series_map_def)
  ultimately show ?thesis by simp
qed

text \<open>An instance: a Treasury bill that the Asset Map lists twice ends as \<^verbatim>\<open>Munis\<close>, the
  Class of the later row.\<close>

theorem asset_map_has_final_say_witness:
  "fixed_regex_search ''UNITED STATES TREAS BILL''
   \<and> Class (remap_fixed (null_totals
        [\<lparr>Class = Some ''Short term reserves'', Name = Some ''UNITED STATES TREAS BILL'',
          Account = Some ''Brokerage'', Symbol = Some ''912796'', Value = Some ''1000'',
          Pct = Some ''10%''\<rparr>]) ! 0) = Some ''Fixed''
   \<and> Class (post_process
        [\<lparr>Class = Some ''Short term reserves'', Name = Some ''UNITED STATES TREAS BILL'',
          Account = Some ''Brokerage'', Symbol = Some ''912796'', Value = Some ''1000'',
          Pct = Some ''10%''\<rparr>]
        hardcoded_class_map
        [\<lparr>am_Name = Some ''UNITED STATES TREAS BILL'', am_Class = Some ''Cash'', am_Pct = Some ''1.0''\<rparr>,
         \<lparr>am_Name = Some ''UNITED STATES TREAS BILL'', am_Class = Some ''Munis'', am_Pct = Some ''1.0''\<rparr>]
        True ! 0) = Some ''Munis''"
proof -
  let ?vadf = "[\<lparr>Class = Some ''Short term reserves'', Name = Some ''UNITED STATES TREAS BILL'',
          Account = Some ''Brokerage'', Symbol = Some ''912796'', Value = Some ''1000'',
          Pct = Some ''10%''\<rparr>]"
  let ?amdf = "[\<lparr>am_Name = Some ''UNITED STATES TREAS BILL'', am_Class = Some ''Cash'', am_Pct = Some ''1.0''\<rparr>,
         \<lparr>am_Name = Some ''UNITED STATES TREAS BILL'', am_Class = Some ''Munis'', am_Pct = Some ''1.0''\<rparr>]"
  have h1: "0 < length ?vadf" by simp
  have h2: "Name (?vadf ! 0) = Some ''UNITED STATES TREAS BILL''" by simp
  have h3: "fixed_regex_search ''UNITED STATES TREAS BILL''"
    by (simp add: match_here_def fixed_alternatives_def)
  have h4: "1 < length ?amdf" by simp
  have h5: "am_Name (?amdf ! 1) = Some ''UNITED STATES TREAS BILL''" by simp
  have h6: "\<forall>k. 1 < k \<and> k < length ?amdf \<longrightarrow> am_Name (?amdf ! k) \<noteq> Some ''UNITED STATES TREAS BILL''"
    by simp
  from asset_map_has_final_say[OF h1 h2 h3 h4 h5 h6, of hardcoded_class_map] h3
  show ?thesis by simp
qed

subsection \<open>C2: which rows end with a Class\<close>

text \<open>
  Claim C2 says that after \<^verbatim>\<open>post_process\<close> a row has a Class unless its Symbol is
  \<^verbatim>\<open>Subtotal:\<close> or \<^verbatim>\<open>Total:\<close>, and that those rows have none. Neither half holds for every
  table. A data row that no header row and no account row precedes leaves
  \<^verbatim>\<open>csv_post_process\<close> without a Class, and no step of \<^verbatim>\<open>post_process\<close> gives it one; a
  \<^verbatim>\<open>Total:\<close> row whose Name has an Asset Map entry is given that entry's Class by the last
  step.
\<close>

theorem Class_non_null_counterexample:
  "map Symbol (post_process
      (csv_post_process [Raw (Some ''Fund A'') (Some ''Brokerage'') (Some ''FA'') (Some ''100'') None])
      hardcoded_class_map [] False) = [Some ''FA'']
   \<and> map Class (post_process
      (csv_post_process [Raw (Some ''Fund A'') (Some ''Brokerage'') (Some ''FA'') (Some ''100'') None])
      hardcoded_class_map [] False) = [None]
   \<and> map Class (post_process
      [\<lparr>Class = None, Name = Some ''Total'', Account = None, Symbol = Some ''Total:'',
        Value = Some ''100'', Pct = None\<rparr>]
      hardcoded_class_map
      [\<lparr>am_Name = Some ''Total'', am_Class = Some ''Everything'', am_Pct = None\<rparr>] False)
     = [Some ''Everything'']"
  by (simp add: csv_post_process_def dropna_Value_def insert_Class_def assign_Account_def
      post_process_def null_totals_def is_total_def remap_classes_def remap_assets_def
      hardcoded_class_map_def dict_zip_def series_map_def)

text \<open>
  Claim C2, amended. After \<^verbatim>\<open>post_process\<close>, a row whose Symbol is \<^verbatim>\<open>Subtotal:\<close> or
  \<^verbatim>\<open>Total:\<close> has no Class, provided no later step gives it one: in fixed mode its Name does
  not match the fixed-income pattern, the Class Map has no entry with a missing Class key,
  and the Asset Map has no entry for its Name. A row with any other Symbol has a Class,
  provided it had one when \<^verbatim>\<open>post_process\<close> started and neither map assigns a missing value
  (no missing \<^verbatim>\<open>ClassMap\<close> cell in the Class Map, no missing \<^verbatim>\<open>Class\<close> cell in the Asset
  Map).
\<close>

theorem Class_after_post_process:
  assumes "i < length vadf"
  shows "(is_total (vadf ! i)
            \<and> \<not> (fixed \<and> fixed_regex_search (name_or_None (vadf ! i)))
            \<and> None \<notin> set (map cm_Class cmdf)
            \<and> (if fixed then Some (name_or_None (vadf ! i)) else Name (vadf ! i)) \<notin> set (map am_Name amdf)
          \<longrightarrow> Class (post_process vadf cmdf amdf fixed ! i) = None)
       \<and> (\<not> is_total (vadf ! i) \<and> Class (vadf ! i) \<noteq> None
            \<and> (\<forall>e \<in> set cmdf. cm_ClassMap e \<noteq> None) \<and> (\<forall>e \<in> set amdf. am_Class e \<noteq> None)
          \<longrightarrow> Class (post_process vadf cmdf amdf fixed ! i) \<noteq> None)"
proof (intro conjI impI)
  assume "is_total (vadf ! i)
            \<and> \<not> (fixed \<and> fixed_regex_search (name_or_None (vadf ! i)))
            \<and> None \<notin> set (map cm_Class cmdf)
            \<and> (if fixed then Some (name_or_None (vadf ! i)) else Name (vadf ! i)) \<notin> set (map am_Name amdf)"
  then show "Class (post_process vadf cmdf amdf fixed ! i) = None"
    unfolding Class_post_process[OF assms] Let_def by (simp split: if_splits)
next
  assume h: "\<not> is_total (vadf ! i) \<and> Class (vadf ! i) \<noteq> None
            \<and> (\<forall>e \<in> set cmdf. cm_ClassMap e \<noteq> None) \<and> (\<forall>e \<in> set amdf. am_Class e \<noteq> None)"
  let ?c2 = "if fixed \<and> fixed_regex_search (name_or_None (vadf ! i)) then Some ''Fixed'' else Class (vadf ! i)"
  have c2: "?c2 \<noteq> None" using h by simp
  let ?c3 = "if ?c2 \<in> set (map cm_Class cmdf)
                then series_map (dict_zip (map cm_Class cmdf) (map cm_ClassMap cmdf)) ?c2 else ?c2"
  have c3: "?c3 \<noteq> None"
  proof (cases "?c2 \<in> set (map cm_Class cmdf)")
    case True
    from series_map_not_None[OF True, of cm_ClassMap] h True show ?thesis by presburger
  next
    case False
    with c2 show ?thesis by presburger
  qed
  let ?n = "if fixed then Some (name_or_None (vadf ! i)) else Name (vadf ! i)"
  have fin: "Class (post_process vadf cmdf amdf fixed ! i) =
      (if ?n \<in> set (map am_Name amdf)
         then series_map (dict_zip (map am_Name amdf) (map am_Class amdf)) ?n else ?c3)"
    unfolding Class_post_process[OF assms] Let_def using h by simp
  show "Class (post_process vadf cmdf amdf fixed ! i) \<noteq> None"
  proof (cases "?n \<in> set (map am_Name amdf)")
    case True
    from series_map_not_None[OF True, of am_Class] h have
      "series_map (dict_zip (map am_Name amdf) (map am_Class amdf)) ?n \<noteq> None" by blast
    with True fin show ?thesis by presburger
  next
    case False
    with c3 fin show ?thesis by presburger
  qed
qed

theorem Class_after_post_process_witness:
  "Class (post_process example_holdings hardcoded_class_map [] True ! 2) = None
   \<and> Class (post_process example_holdings hardcoded_class_map [] True ! 3) \<noteq> None"
proof -
  have l2: "2 < length example_holdings" and l3: "3 < length example_holdings"
    by (simp_all add: example_holdings_def)
  have t: "is_total (example_holdings ! 2)
       \<and> \<not> (True \<and> fixed_regex_search (name_or_None (example_holdings ! 2)))
       \<and> None \<notin> set (map cm_Class hardcoded_class_map)
       \<and> (if True then Some (name_or_None (example_holdings ! 2)) else Name (example_holdings ! 2))
            \<notin> set (map am_Name ([] :: am_entry list))"
    by (simp add: example_holdings_def hardcoded_class_map_def is_total_def name_or_None_def
        match_here_def fixed_alternatives_def)
  have d: "\<not> is_total (example_holdings ! 3) \<and> Class (example_holdings ! 3) \<noteq> None
       \<and> (\<forall>e \<in> set hardcoded_class_map. cm_ClassMap e \<noteq> None)
       \<and> (\<forall>e \<in> set ([] :: am_entry list). am_Class e \<noteq> None)"
    by (simp add: example_holdings_def hardcoded_class_map_def is_total_def)
  from Class_after_post_process[OF l2, of True hardcoded_class_map "[]"] t
  have "Class (post_process example_holdings hardcoded_class_map [] True ! 2) = None" by blast
  moreover from Class_after_post_process[OF l3, of True hardcoded_class_map "[]"] d
  have "Class (post_process example_holdings hardcoded_class_map [] True ! 3) \<noteq> None" by blast
  ultimately show ?thesis by (intro conjI)
qed

subsection \<open>C3: the end-to-end scenario\<close>

text \<open>
  Claim C3 says that in the scenario of an account with a header row (Value \<^verbatim>\<open>Value\<close>), a
  data row and a subtotal row, the data row's Class is the class propagated from its account
  row. With the rows in the order in which the scenario lists them under the account row,
  the header row seeds the Class \<^verbatim>\<open>Value\<close>, and the forward fill carries that seed, not the
  account's class, to the data row below it.
\<close>

theorem end_to_end_scenario_counterexample:
  "map Name (csv_post_process
     [Raw None (Some ''Brokerage'') None None None,
      Raw (Some ''Fund Name'') (Some ''Account Name'') (Some ''Symbol'') (Some ''Value'') (Some ''% of Portfolio''),
      Raw (Some ''Fund A'') (Some ''Brokerage'') (Some ''FA'') (Some ''100'') (Some ''100%''),
      Raw None None (Some ''Subtotal:'') (Some ''100'') (Some ''100%'')])
     = [Some ''Fund Name'', Some ''Fund A'', None]
   \<and> map Class (csv_post_process
     [Raw None (Some ''Brokerage'') None None None,
      Raw (Some ''Fund Name'') (Some ''Account Name'') (Some ''Symbol'') (Some ''Value'') (Some ''% of Portfolio''),
      Raw (Some ''Fund A'') (Some ''Brokerage'') (Some ''FA'') (Some ''100'') (Some ''100%''),
      Raw None None (Some ''Subtotal:'') (Some ''100'') (Some ''100%'')])
     = [Some ''Value'', Some ''Value'', Some ''Value'']"
  by (simp add: csv_post_process_def dropna_Value_def insert_Class_def assign_Account_def)

text \<open>
  Claim C3, amended. In the scenario, the data row's Class after \<^verbatim>\<open>csv_post_process\<close> is
  the class of the nearest row above it that carries one. It is \<^verbatim>\<open>Value\<close> when a header row
  with a Name stands between the account row and the data row. It is the account's class
  when the account row stands between the header row and the data row, and when the header
  row is itself the account row (Name missing, Account present). The subtotal row ends
  \<^verbatim>\<open>post_process\<close> without a Class, provided no later step gives it one: in fixed mode its
  Name does not match the fixed-income pattern, the Class Map has no entry with a missing
  Class key, and the Asset Map has no entry for its Name.
\<close>

theorem end_to_end_scenario:
  fixes cmdf :: "'o cm_entry list"
    and acct h_name :: string
    and m_sym m_pct h_acct h_sym h_pct d_acct d_pct s_name s_acct s_pct :: cell
    and marker header data subtotal :: raw_row
  defines "marker \<equiv> Raw None (Some acct) m_sym None m_pct"
    and "header \<equiv> Raw (Some h_name) h_acct h_sym (Some ''Value'') h_pct"
    and "data \<equiv> Raw (Some ''Fund A'') d_acct (Some ''FA'') (Some ''100'') d_pct"
    and "subtotal \<equiv> Raw s_name s_acct (Some ''Subtotal:'') (Some ''100'') s_pct"
  assumes "\<not> (fixed \<and> fixed_regex_search (case s_name of None \<Rightarrow> ''None'' | Some n \<Rightarrow> n))"
    and "None \<notin> set (map cm_Class cmdf)"
    and "(if fixed then Some (case s_name of None \<Rightarrow> ''None'' | Some n \<Rightarrow> n) else s_name)
           \<notin> set (map am_Name amdf)"
  shows "csv_post_process [marker, header, data, subtotal] ! 1
           = \<lparr>Class = Some ''Value'', Name = Some ''Fund A'', Account = d_acct,
              Symbol = Some ''FA'', Value = Some ''100'', Pct = d_pct\<rparr>
       \<and> csv_post_process [header, marker, data, subtotal] ! 1
           = \<lparr>Class = Some acct, Name = Some ''Fund A'', Account = d_acct,
              Symbol = Some ''FA'', Value = Some ''100'', Pct = d_pct\<rparr>
       \<and> csv_post_process [Raw None (Some acct) h_sym (Some ''Value'') h_pct, data, subtotal] ! 1
           = \<lparr>Class = Some acct, Name = Some ''Fund A'', Account = d_acct,
              Symbol = Some ''FA'', Value = Some ''100'', Pct = d_pct\<rparr>
       \<and> Symbol (post_process (csv_post_process [marker, header, data, subtotal]) cmdf amdf fixed ! 2)
           = Some ''Subtotal:''
       \<and> Class (post_process (csv_post_process [marker, header, data, subtotal]) cmdf amdf fixed ! 2)
           = None
       \<and> Class (post_process (csv_post_process [header, marker, data, subtotal]) cmdf amdf fixed ! 2)
           = None"
proof -
  let ?sub = "\<lambda>c. \<lparr>Class = c, Name = s_name, Account = s_acct, Symbol = Some ''Subtotal:'',
                   Value = Some ''100'', Pct = s_pct\<rparr>"
  let ?hd = "\<lparr>Class = Some ''Value'', Name = Some h_name, Account = h_acct, Symbol = h_sym,
              Value = Some ''Value'', Pct = h_pct\<rparr>"
  let ?d = "\<lambda>c. \<lparr>Class = Some c, Name = Some ''Fund A'', Account = d_acct,
              Symbol = Some ''FA'', Value = Some ''100'', Pct = d_pct\<rparr>"
  have t1: "\<exists>c. csv_post_process [marker, header, data, subtotal] = [?hd, ?d ''Value'', ?sub c]"
    unfolding marker_def header_def data_def subtotal_def
    by (cases s_name; cases s_acct)
       (simp_all add: csv_post_process_def dropna_Value_def insert_Class_def assign_Account_def)
  have t2: "\<exists>c. csv_post_process [header, marker, data, subtotal] = [?hd, ?d acct, ?sub c]"
    unfolding marker_def header_def data_def subtotal_def
    by (cases s_name; cases s_acct)
       (simp_all add: csv_post_process_def dropna_Value_def insert_Class_def assign_Account_def)
  have t3: "csv_post_process [Raw None (Some acct) h_sym (Some ''Value'') h_pct, data, subtotal] ! 1
      = ?d acct"
    unfolding data_def subtotal_def
    by (cases s_name; cases s_acct)
       (simp_all add: csv_post_process_def dropna_Value_def insert_Class_def assign_Account_def)
  have fin: "Class (post_process [r0, r1, ?sub c] cmdf amdf fixed ! 2) = None" for r0 r1 c
    using assms(5-)
    by (simp add: Class_post_process Let_def is_total_def name_or_None_def split: if_splits)
  from t1 obtain c1 where c1: "csv_post_process [marker, header, data, subtotal] = [?hd, ?d ''Value'', ?sub c1]"
    by blast
  from t2 obtain c2 where c2: "csv_post_process [header, marker, data, subtotal] = [?hd, ?d acct, ?sub c2]"
    by blast
  show ?thesis
    unfolding c1 c2 t3 using fin[of ?hd "?d ''Value''" c1] fin[of ?hd "?d acct" c2]
    by (simp add: Symbol_post_process)
qed

theorem end_to_end_scenario_witness:
  "Class (csv_post_process
     [Raw None (Some ''Brokerage'') None None None,
      Raw (Some ''Fund Name'') (Some ''Account Name'') (Some ''Symbol'') (Some ''Value'') (Some ''% of Portfolio''),
      Raw (Some ''Fund A'') (Some ''Brokerage'') (Some ''FA'') (Some ''100'') (Some ''100%''),
      Raw None None (Some ''Subtotal:'') (Some ''100'') (Some ''100%'')] ! 1) = Some ''Value''
   \<and> Class (csv_post_process
     [Raw (Some ''Fund Name'') (Some ''Account Name'') (Some ''Symbol'') (Some ''Value'') (Some ''% of Portfolio''),
      Raw None (Some ''Brokerage'') None None None,
      Raw (Some ''Fund A'') (Some ''Brokerage'') (Some ''FA'') (Some ''100'') (Some ''100%''),
      Raw None None (Some ''Subtotal:'') (Some ''100'') (Some ''100%'')] ! 1) = Some ''Brokerage''
   \<and> Class (post_process (csv_post_process
     [Raw None (Some ''Brokerage'') None None None,
      Raw (Some ''Fund Name'') (Some ''Account Name'') (Some ''Symbol'') (Some ''Value'') (Some ''% of Portfolio''),
      Raw (Some ''Fund A'') (Some ''Brokerage'') (Some ''FA'') (Some ''100'') (Some ''100%''),
      Raw None None (Some ''Subtotal:'') (Some ''100'') (Some ''100%'')])
       hardcoded_class_map [] True ! 2) = None"
proof -
  have h1: "\<not> (True \<and> fixed_regex_search (case None of None \<Rightarrow> ''None'' | Some n \<Rightarrow> n))"
    by (simp add: match_here_def fixed_alternatives_def)
  have h2: "None \<notin> set (map cm_Class hardcoded_class_map)"
    by (simp add: hardcoded_class_map_def)
  have h3: "(if True then Some (case None of None \<Rightarrow> ''None'' | Some n \<Rightarrow> n) else None)
           \<notin> set (map am_Name ([] :: am_entry list))"
    by simp
  from end_to_end_scenario[OF h1 h2 h3, where acct = "''Brokerage''" and m_sym = None
      and m_pct = None and h_name = "''Fund Name''" and h_acct = "Some ''Account Name''"
      and h_sym = "Some ''Symbol''" and h_pct = "Some ''% of Portfolio''"
      and d_acct = "Some ''Brokerage''" and d_pct = "Some ''100%''" and s_acct = None
      and s_pct = "Some ''100%''"]
  show ?thesis by simp
qed

subsection \<open>C4: the sorted report is stably sorted by Class\<close>

text \<open>
  Claim C4. The rows of the sorted report are the rows left after the structural rows are
  removed, in sorted order, and the sort is stable: rows with the same key keep the order
  they had. When some \<^verbatim>\<open>Order\<close> value of the Class Map is present, the key of a row is the
  \<^verbatim>\<open>Order\<close> that the Class Map gives for the row's Class; when none is present, the key is
  the Class itself, compared as a string. Rows without a key come last.
\<close>

theorem alloc_csv_stably_sorted:
  fixes cmdf :: "('o::linorder) cm_entry list"
  shows "let sorted_rows = snd (alloc_csv (write_results now vadf cmdf date_on fmt));
             kept = filter (\<lambda>r. \<not> is_structural r) vadf
         in mset sorted_rows = mset kept
          \<and> ((\<exists>e \<in> set cmdf. cm_Order e \<noteq> None) \<longrightarrow>
               sorted_wrt (\<lambda>a b. na_last_le (order_key cmdf a) (order_key cmdf b)) sorted_rows
             \<and> (\<forall>k. filter (\<lambda>r. order_key cmdf r = k) sorted_rows
                    = filter (\<lambda>r. order_key cmdf r = k) kept))
          \<and> ((\<forall>e \<in> set cmdf. cm_Order e = None) \<longrightarrow>
               sorted_wrt (\<lambda>a b. na_last_le (Class a) (Class b)) sorted_rows
             \<and> (\<forall>k. filter (\<lambda>r. Class r = k) sorted_rows = filter (\<lambda>r. Class r = k) kept))"
proof (cases "order_present cmdf")
  case True
  then have "\<exists>e \<in> set cmdf. cm_Order e \<noteq> None" by (simp add: order_present_iff)
  with True show ?thesis
    unfolding Let_def write_results_alloc drop_structural_def[symmetric]
    by (auto simp: sort_by_Class_def mset_sort_values sorted_sort_values filter_sort_values)
next
  case False
  then have "\<forall>e \<in> set cmdf. cm_Order e = None" by (simp add: order_present_iff)
  with False show ?thesis
    unfolding Let_def write_results_alloc drop_structural_def[symmetric]
    by (auto simp: sort_by_Class_def mset_sort_values sorted_sort_values filter_sort_values)
qed

text \<open>With the hardcoded Class Map, Cash (order 0) comes before the two stock funds
  (order 3), which keep their order, and these before the other assets (order 7); with an
  empty Class Map the classes are in alphabetical order.\<close>

theorem alloc_csv_stably_sorted_witness:
  "sorted_wrt (\<lambda>a b. na_last_le (order_key hardcoded_class_map a) (order_key hardcoded_class_map b))
     (snd (alloc_csv (write_results clock_2024 example_holdings hardcoded_class_map True ''%Y-%m-%d'')))
   \<and> map Symbol (snd (alloc_csv
         (write_results clock_2024 example_holdings hardcoded_class_map True ''%Y-%m-%d'')))
       = [Some ''VMFXX'', Some ''VTSAX'', Some ''VFIAX'', Some ''GLD'']
   \<and> sorted_wrt (\<lambda>a b. na_last_le (Class a) (Class b))
     (snd (alloc_csv (write_results clock_2024 example_holdings ([] :: nat cm_entry list) True ''%Y-%m-%d'')))
   \<and> map Symbol (snd (alloc_csv
         (write_results clock_2024 example_holdings ([] :: nat cm_entry list) True ''%Y-%m-%d'')))
       = [Some ''VMFXX'', Some ''GLD'', Some ''VTSAX'', Some ''VFIAX'']"
proof -
  have h1: "\<exists>e \<in> set hardcoded_class_map. cm_Order e \<noteq> None"
    by (simp add: hardcoded_class_map_def)
  have h2: "\<forall>e \<in> set ([] :: nat cm_entry list). cm_Order e = None"
    by simp
  have s1: "sorted_wrt (\<lambda>a b. na_last_le (order_key hardcoded_class_map a) (order_key hardcoded_class_map b))
     (snd (alloc_csv (write_results clock_2024 example_holdings hardcoded_class_map True ''%Y-%m-%d'')))"
    using alloc_csv_stably_sorted[where now = clock_2024 and vadf = example_holdings
        and cmdf = hardcoded_class_map and date_on = True and fmt = "''%Y-%m-%d''"] h1
    unfolding Let_def by blast
  have s2: "sorted_wrt (\<lambda>a b. na_last_le (Class a) (Class b))
     (snd (alloc_csv (write_results clock_2024 example_holdings ([] :: nat cm_entry list) True ''%Y-%m-%d'')))"
    using alloc_csv_stably_sorted[where now = clock_2024 and vadf = example_holdings
        and cmdf = "[] :: nat cm_entry list" and date_on = True and fmt = "''%Y-%m-%d''"] h2
    unfolding Let_def by blast
  have e1: "map Symbol (snd (alloc_csv
         (write_results clock_2024 example_holdings hardcoded_class_map True ''%Y-%m-%d'')))
       = [Some ''VMFXX'', Some ''VTSAX'', Some ''VFIAX'', Some ''GLD'']"
    by code_simp
  have e2: "map Symbol (snd (alloc_csv
         (write_results clock_2024 example_holdings ([] :: nat cm_entry list) True ''%Y-%m-%d'')))
       = [Some ''VMFXX'', Some ''GLD'', Some ''VTSAX'', Some ''VFIAX'']"
    by code_simp
  from s1 e1 s2 e2 show ?thesis by (intro conjI)
qed

subsection \<open>C5: the sorted report is the unsorted report without the structural rows\<close>

text \<open>
  Claim C5. The sorted report holds exactly the rows of the unsorted report, as a multiset,
  that are not structural, where a structural row has Symbol \<^verbatim>\<open>Subtotal:\<close> or \<^verbatim>\<open>Total:\<close> or
  Name \<^verbatim>\<open>Name\<close>. So its length is the length of the unsorted report minus the number of
  structural rows, and it holds no structural row.
\<close>

theorem alloc_csv_is_report_without_structural_rows:
  "let out = write_results now vadf cmdf date_on fmt;
       unsorted = snd (report_csv out);
       sorted_rows = snd (alloc_csv out);
       structural = (\<lambda>r. Symbol r = Some ''Subtotal:'' \<or> Symbol r = Some ''Total:'' \<or> Name r = Some ''Name'')
   in mset sorted_rows = mset (filter (\<lambda>r. \<not> structural r) unsorted)
    \<and> length sorted_rows = length unsorted - length (filter structural unsorted)
    \<and> (\<forall>r \<in> set sorted_rows. \<not> structural r)"
proof -
  have st: "(\<lambda>r. Symbol r = Some ''Subtotal:'' \<or> Symbol r = Some ''Total:'' \<or> Name r = Some ''Name'')
              = is_structural"
    by (rule ext) (simp only: is_structural_def)
  let ?s = "sort_by_Class cmdf (drop_structural vadf)"
  have m: "mset ?s = mset (filter (\<lambda>r. \<not> is_structural r) vadf)"
    by (simp only: mset_sort_by_Class drop_structural_def)
  have "length ?s = length (filter (\<lambda>r. \<not> is_structural r) vadf)"
    using m by (rule mset_eq_length)
  moreover have "length vadf =
      length (filter is_structural vadf) + length (filter (\<lambda>r. \<not> is_structural r) vadf)"
    by (rule sum_length_filter_compl[symmetric])
  ultimately have l: "length ?s = length vadf - length (filter is_structural vadf)"
    by linarith
  have "set ?s = set (filter (\<lambda>r. \<not> is_structural r) vadf)"
    using m by (rule mset_eq_setD)
  then have s: "\<forall>r \<in> set ?s. \<not> is_structural r"
    by (simp only: set_filter) blast
  show ?thesis
    unfolding Let_def write_results_alloc write_results_report st
    using m l s by (intro conjI)
qed

theorem alloc_csv_is_report_without_structural_rows_witness:
  "length (snd (report_csv (write_results clock_2024 example_holdings hardcoded_class_map True ''%Y-%m-%d''))) = 5
   \<and> length (snd (alloc_csv (write_results clock_2024 example_holdings hardcoded_class_map True ''%Y-%m-%d''))) = 4"
proof -
  let ?out = "write_results clock_2024 example_holdings hardcoded_class_map True ''%Y-%m-%d''"
  let ?st = "\<lambda>r. Symbol r = Some ''Subtotal:'' \<or> Symbol r = Some ''Total:'' \<or> Name r = Some ''Name''"
  have r: "snd (report_csv ?out) = example_holdings"
    by (rule write_results_report)
  have "length (snd (alloc_csv ?out)) =
        length (snd (report_csv ?out)) - length (filter ?st (snd (report_csv ?out)))"
    using alloc_csv_is_report_without_structural_rows[where now = clock_2024
        and vadf = example_holdings and cmdf = hardcoded_class_map and date_on = True
        and fmt = "''%Y-%m-%d''"]
    unfolding Let_def by blast
  then show ?thesis unfolding r by (simp add: example_holdings_def)
qed

subsection \<open>C6: the candidates file\<close>

text \<open>
  Claim C6. The candidates are exactly the rows whose Class is present and starts with
  \<^verbatim>\<open>Other\<close>, in their order, each reduced to its Name and Class with the column \<^verbatim>\<open>%\<close> set
  to 1.0; the candidates file is written exactly when there is such a row.
\<close>

theorem candidates_csv_exactly_Other_rows:
  "candidates_csv (write_results now vadf cmdf date_on fmt) =
     (let selected = filter (\<lambda>r. \<exists>s. Class r = Some (''Other'' @ s)) vadf
      in if selected = [] then None
         else Some (''Asset-Map-Candidates'' @ date_suffix_of now date_on fmt @ ''.csv'',
                    map (\<lambda>r. \<lparr>cand_Name = Name r, cand_Class = Class r, cand_Pct = 1\<rparr>) selected))"
proof -
  have "is_other = (\<lambda>r. \<exists>s. Class r = Some (''Other'' @ s))"
    by (simp add: fun_eq_iff is_other_iff)
  then show ?thesis
    by (simp add: write_results_def Let_def other_rows_def comp_def)
qed

theorem candidates_csv_exactly_Other_rows_witness:
  "candidates_csv (write_results clock_2024 example_holdings hardcoded_class_map True ''%Y-%m-%d'')
     = Some (''Asset-Map-Candidates-2024-05-17.csv'',
             [\<lparr>cand_Name = Some ''Gold Trust'', cand_Class = Some ''Other asset types'', cand_Pct = 1\<rparr>])
   \<and> candidates_csv (write_results clock_2024 (take 3 example_holdings) hardcoded_class_map True ''%Y-%m-%d'')
     = None"
  using candidates_csv_exactly_Other_rows[where now = clock_2024 and vadf = example_holdings
        and cmdf = hardcoded_class_map and date_on = True and fmt = "''%Y-%m-%d''"]
    candidates_csv_exactly_Other_rows[where now = clock_2024 and vadf = "take 3 example_holdings"
        and cmdf = hardcoded_class_map and date_on = True and fmt = "''%Y-%m-%d''"]
  by (simp add: example_holdings_def date_suffix_of_def clock_2024_def)

subsection \<open>C7: class-map renaming is idempotent\<close>

text \<open>
  Claim C7. When no \<^verbatim>\<open>ClassMap\<close> value of the Class Map is also one of its \<^verbatim>\<open>Class\<close> keys,
  applying the class-map step to a table it has already been applied to changes nothing.
\<close>

theorem remap_classes_idempotent:
  assumes "\<forall>e \<in> set cmdf. cm_ClassMap e \<notin> set (map cm_Class cmdf)"
  shows "remap_classes cmdf (remap_classes cmdf vadf) = remap_classes cmdf vadf"
proof -
  let ?d = "dict_zip (map cm_Class cmdf) (map cm_ClassMap cmdf)"
  have out: "series_map ?d c \<notin> set (map cm_Class cmdf)" if "c \<in> set (map cm_Class cmdf)" for c
  proof -
    from dict_zip_in_keys[OF that, of cm_ClassMap]
    obtain e where "e \<in> set cmdf" "?d c = Some (cm_ClassMap e)" by blast
    with assms show ?thesis by (simp add: series_map_def)
  qed
  show ?thesis
    unfolding remap_classes_def using out by (simp add: comp_def)
qed

theorem remap_classes_idempotent_witness:
  "remap_classes
        [\<lparr>cm_Class = Some ''Short term reserves'', cm_ClassMap = Some ''Cash'', cm_Order = Some (0::int)\<rparr>,
         \<lparr>cm_Class = Some ''U.S. stocks & stock funds'', cm_ClassMap = Some ''U.S. stocks'', cm_Order = Some 3\<rparr>]
        (remap_classes
          [\<lparr>cm_Class = Some ''Short term reserves'', cm_ClassMap = Some ''Cash'', cm_Order = Some (0::int)\<rparr>,
           \<lparr>cm_Class = Some ''U.S. stocks & stock funds'', cm_ClassMap = Some ''U.S. stocks'', cm_Order = Some 3\<rparr>]
          [\<lparr>Class = Some ''Short term reserves'', Name = Some ''Federal Money Market'',
            Account = Some ''Brokerage'', Symbol = Some ''VMFXX'', Value = Some ''250'', Pct = None\<rparr>])
     = [\<lparr>Class = Some ''Cash'', Name = Some ''Federal Money Market'',
            Account = Some ''Brokerage'', Symbol = Some ''VMFXX'', Value = Some ''250'', Pct = None\<rparr>]"
proof -
  let ?cm = "[\<lparr>cm_Class = Some ''Short term reserves'', cm_ClassMap = Some ''Cash'', cm_Order = Some (0::int)\<rparr>,
                \<lparr>cm_Class = Some ''U.S. stocks & stock funds'', cm_ClassMap = Some ''U.S. stocks'', cm_Order = Some 3\<rparr>]"
  let ?v = "[\<lparr>Class = Some ''Short term reserves'', Name = Some ''Federal Money Market'',
            Account = Some ''Brokerage'', Symbol = Some ''VMFXX'', Value = Some ''250'', Pct = None\<rparr>]"
  have h: "\<forall>e \<in> set ?cm. cm_ClassMap e \<notin> set (map cm_Class ?cm)" by simp
  have once: "remap_classes ?cm ?v = [\<lparr>Class = Some ''Cash'', Name = Some ''Federal Money Market'',
            Account = Some ''Brokerage'', Symbol = Some ''VMFXX'', Value = Some ''250'', Pct = None\<rparr>]"
    by (simp add: remap_classes_def dict_zip_def series_map_def)
  from remap_classes_idempotent[OF h, of ?v] once show ?thesis by (simp only:)
qed

subsection \<open>C8: the fixed-income rule\<close>

text \<open>
  Claim C8. With fixed-income mode on, \<^verbatim>\<open>post_process\<close> runs the fixed-income step between
  the nulling of totals and the class-map step, and that step sets Class to \<^verbatim>\<open>Fixed\<close> for
  exactly the rows whose Name, a missing Name read as the string \<^verbatim>\<open>None\<close>, contains one of
  \<^verbatim>\<open>UNITED STATES TREAS\<close>, \<^verbatim>\<open>CPN\<close>, \<^verbatim>\<open>NTS\<close> somewhere (anywhere in the Name, letter case
  kept); the Class of every other row is what it was. With the mode off the step is not run.
\<close>

theorem remap_fixed_exactly_matching_rows:
  assumes "i < length t"
  shows "post_process vadf cmdf amdf True =
           remap_assets amdf (remap_classes cmdf (remap_fixed (null_totals vadf)))
       \<and> post_process vadf cmdf amdf False =
           remap_assets amdf (remap_classes cmdf (null_totals vadf))
       \<and> length (remap_fixed t) = length t
       \<and> Class (remap_fixed t ! i) =
           (if \<exists>p \<in> {''UNITED STATES TREAS'', ''CPN'', ''NTS''}. \<exists>u v.
                 (case Name (t ! i) of None \<Rightarrow> ''None'' | Some n \<Rightarrow> n) = u @ p @ v
            then Some ''Fixed'' else Class (t ! i))"
  using assms
  by (simp add: post_process_def length_remap_fixed Class_remap_fixed fixed_regex_search_iff
      fixed_alternatives_def name_or_None_def)

theorem remap_fixed_exactly_matching_rows_witness:
  "Class (remap_fixed
     [\<lparr>Class = Some ''Short term reserves'', Name = Some ''FEDERAL HOME LN BKS CPN 4.5%'',
       Account = Some ''Brokerage'', Symbol = Some ''3130'', Value = Some ''5000'', Pct = None\<rparr>,
      \<lparr>Class = Some ''U.S. stocks & stock funds'', Name = Some ''Total Stock Mkt Idx Adm'',
       Account = Some ''Brokerage'', Symbol = Some ''VTSAX'', Value = Some ''7000'', Pct = None\<rparr>,
      \<lparr>Class = None, Name = None,
       Account = None, Symbol = Some ''Subtotal:'', Value = Some ''12000'', Pct = None\<rparr>] ! 0) = Some ''Fixed''
   \<and> Class (remap_fixed
     [\<lparr>Class = Some ''Short term reserves'', Name = Some ''FEDERAL HOME LN BKS CPN 4.5%'',
       Account = Some ''Brokerage'', Symbol = Some ''3130'', Value = Some ''5000'', Pct = None\<rparr>,
      \<lparr>Class = Some ''U.S. stocks & stock funds'', Name = Some ''Total Stock Mkt Idx Adm'',
       Account = Some ''Brokerage'', Symbol = Some ''VTSAX'', Value = Some ''7000'', Pct = None\<rparr>,
      \<lparr>Class = None, Name = None,
       Account = None, Symbol = Some ''Subtotal:'', Value = Some ''12000'', Pct = None\<rparr>] ! 1) = Some ''U.S. stocks & stock funds''
   \<and> Class (remap_fixed
     [\<lparr>Class = Some ''Short term reserves'', Name = Some ''FEDERAL HOME LN BKS CPN 4.5%'',
       Account = Some ''Brokerage'', Symbol = Some ''3130'', Value = Some ''5000'', Pct = None\<rparr>,
      \<lparr>Class = Some ''U.S. stocks & stock funds'', Name = Some ''Total Stock Mkt Idx Adm'',
       Account = Some ''Brokerage'', Symbol = Some ''VTSAX'', Value = Some ''7000'', Pct = None\<rparr>,
      \<lparr>Class = None, Name = None,
       Account = None, Symbol = Some ''Subtotal:'', Value = Some ''12000'', Pct = None\<rparr>] ! 2) = None"
proof -
  let ?t = "[\<lparr>Class = Some ''Short term reserves'', Name = Some ''FEDERAL HOME LN BKS CPN 4.5%'',
       Account = Some ''Brokerage'', Symbol = Some ''3130'', Value = Some ''5000'', Pct = None\<rparr>,
      \<lparr>Class = Some ''U.S. stocks & stock funds'', Name = Some ''Total Stock Mkt Idx Adm'',
       Account = Some ''Brokerage'', Symbol = Some ''VTSAX'', Value = Some ''7000'', Pct = None\<rparr>,
      \<lparr>Class = None, Name = None,
       Account = None, Symbol = Some ''Subtotal:'', Value = Some ''12000'', Pct = None\<rparr>]"
  have m0: "fixed_regex_search ''FEDERAL HOME LN BKS CPN 4.5%''"
    by (simp add: match_here_def fixed_alternatives_def)
  have m1: "\<not> fixed_regex_search ''Total Stock Mkt Idx Adm''"
    by (simp add: match_here_def fixed_alternatives_def)
  have m2: "\<not> fixed_regex_search ''None''"
    by (simp add: match_here_def fixed_alternatives_def)
  have c: "Class (remap_fixed ?t ! i) =
      (if fixed_regex_search (case Name (?t ! i) of None \<Rightarrow> ''None'' | Some n \<Rightarrow> n)
       then Some ''Fixed'' else Class (?t ! i))" if "i < length ?t" for i
    using remap_fixed_exactly_matching_rows[OF that, THEN conjunct2, THEN conjunct2, THEN conjunct2]
    unfolding fixed_regex_search_iff fixed_alternatives_def by simp
  have "Class (remap_fixed ?t ! 0) = Some ''Fixed''" using c[of 0] m0 by simp
  moreover have "Class (remap_fixed ?t ! 1) = Some ''U.S. stocks & stock funds''"
    using c[of 1] m1 by simp
  moreover have "Class (remap_fixed ?t ! 2) = None" using c[of 2] m2 by simp
  ultimately show ?thesis by (intro conjI)
qed

subsection \<open>C9: a missing asset-map file\<close>

text \<open>
  Claim C9. At a path where no file exists, \<^verbatim>\<open>read_asset_map\<close> does not raise: it returns
  a table with the columns \<^verbatim>\<open>Name\<close>, \<^verbatim>\<open>Class\<close>, \<^verbatim>\<open>%\<close> and no rows, and prints its
  warning whatever the quiet flag is. The table holds no Asset Map entry.
\<close>

theorem read_asset_map_missing_file:
  assumes "fs asset_map_path = None"
  shows "read_asset_map fs asset_map_path quiet =
           (Inr \<lparr>columns = [''Name'', ''Class'', ''%''], cells = []\<rparr>,
            [''Asset Map not found at '' @ asset_map_path
               @ '' - no additional asset mapping will be done''])
       \<and> am_entries \<lparr>columns = [''Name'', ''Class'', ''%''], cells = []\<rparr> = []"
  using assms by (simp add: read_asset_map_def read_csv_def am_entries_def)

theorem read_asset_map_missing_file_witness:
  "read_asset_map
     [''Class-Map.csv'' \<mapsto> \<lparr>columns = [''Class'', ''ClassMap'', ''Order''], cells = []\<rparr>]
     ''Asset-Map.csv'' True =
     (Inr \<lparr>columns = [''Name'', ''Class'', ''%''], cells = []\<rparr>,
      [''Asset Map not found at Asset-Map.csv - no additional asset mapping will be done''])"
proof -
  let ?fs = "[''Class-Map.csv'' \<mapsto> \<lparr>columns = [''Class'', ''ClassMap'', ''Order''], cells = []\<rparr>]"
  have h: "?fs ''Asset-Map.csv'' = None" by simp
  from read_asset_map_missing_file[of ?fs "''Asset-Map.csv''" True] h show ?thesis by simp
qed

subsection \<open>C10: a missing Name becomes the string None\<close>

text \<open>
  Claim C10 says that in fixed mode a row with a missing Name appears with the Name
  \<^verbatim>\<open>None\<close> in the unsorted and in the sorted report. The sorted report leaves out the rows
  whose Symbol is \<^verbatim>\<open>Subtotal:\<close> or \<^verbatim>\<open>Total:\<close>, so such a row with a missing Name is in the
  unsorted report only.
\<close>

theorem null_Name_in_sorted_report_counterexample:
  "Name (example_holdings ! 2) = None
   \<and> map Name (snd (report_csv (write_results clock_2024
        (post_process example_holdings hardcoded_class_map [] True)
        hardcoded_class_map True ''%Y-%m-%d'')))
     = [Some ''Total Stock Mkt Idx Adm'', Some ''Federal Money Market'', Some ''None'',
        Some ''Gold Trust'', Some ''500 Index Admiral'']
   \<and> map Name (snd (alloc_csv (write_results clock_2024
        (post_process example_holdings hardcoded_class_map [] True)
        hardcoded_class_map True ''%Y-%m-%d'')))
     = [Some ''Federal Money Market'', Some ''Total Stock Mkt Idx Adm'', Some ''500 Index Admiral'',
        Some ''Gold Trust'']"
  by code_simp

text \<open>
  Claim C10, amended. In fixed mode \<^verbatim>\<open>post_process\<close> replaces a missing Name by the string
  \<^verbatim>\<open>None\<close>; the row is written with that Name to the unsorted report, and to the sorted
  report exactly when its Symbol is neither \<^verbatim>\<open>Subtotal:\<close> nor \<^verbatim>\<open>Total:\<close>. With fixed mode
  off, \<^verbatim>\<open>post_process\<close> leaves every Name, missing or not, as it was.
\<close>

theorem null_Name_shown_as_None:
  fixes cmdf :: "('o::linorder) cm_entry list"
  assumes "i < length vadf" and "Name (vadf ! i) = None"
  shows "let pp = post_process vadf cmdf amdf True;
             out = write_results now pp cmdf date_on fmt
         in Name (pp ! i) = Some ''None''
          \<and> snd (report_csv out) ! i = pp ! i
          \<and> (pp ! i \<in> set (snd (alloc_csv out))
               \<longleftrightarrow> Symbol (vadf ! i) \<noteq> Some ''Subtotal:'' \<and> Symbol (vadf ! i) \<noteq> Some ''Total:'')
          \<and> map Name (post_process vadf cmdf amdf False) = map Name vadf"
proof -
  let ?pp = "post_process vadf cmdf amdf True"
  have n: "Name (?pp ! i) = Some ''None''"
    using assms by (simp add: Name_post_process name_or_None_def)
  have s: "Symbol (?pp ! i) = Symbol (vadf ! i)"
    using assms by (simp add: Symbol_post_process)
  have mem: "?pp ! i \<in> set ?pp"
    using assms(1) by (simp add: length_post_process)
  have "is_structural (?pp ! i) \<longleftrightarrow>
        Symbol (vadf ! i) = Some ''Subtotal:'' \<or> Symbol (vadf ! i) = Some ''Total:''"
    by (simp add: is_structural_def n s)
  with mem have a: "?pp ! i \<in> set (snd (alloc_csv (write_results now ?pp cmdf date_on fmt)))
      \<longleftrightarrow> Symbol (vadf ! i) \<noteq> Some ''Subtotal:'' \<and> Symbol (vadf ! i) \<noteq> Some ''Total:''"
    unfolding set_alloc by blast
  show ?thesis
    unfolding Let_def write_results_report using n a Name_post_process_list by blast
qed

theorem null_Name_shown_as_None_witness:
  "Name (post_process example_holdings hardcoded_class_map [] True ! 2) = Some ''None''
   \<and> Name (snd (report_csv (write_results clock_2024
        (post_process example_holdings hardcoded_class_map [] True)
        hardcoded_class_map True ''%Y-%m-%d'')) ! 2) = Some ''None''"
proof -
  have l: "2 < length example_holdings" and n: "Name (example_holdings ! 2) = None"
    by (simp_all add: example_holdings_def)
  from null_Name_shown_as_None[OF l n, where cmdf = hardcoded_class_map and amdf = "[]"
      and now = clock_2024 and date_on = True and fmt = "''%Y-%m-%d''"]
  show ?thesis unfolding Let_def by simp
qed

end
